theory Spec2Isabelle
  imports Complex_Main
begin

section \<open>Data model (src/lib/types.ts)\<close>

text \<open>
  \<^verbatim>\<open>Detection\<close> and \<^verbatim>\<open>DetectionStats\<close> of types.ts. JavaScript numbers are modelled
  as reals (coordinates, confidence) or naturals (counts, epoch milliseconds); the
  field \<^verbatim>\<open>class\<close> is called \<open>cls\<close> and the rectangle fields carry the prefix
  \<open>det_\<close>. \<^verbatim>\<open>classCounts: Record<string, number>\<close> is a map.
\<close>

record detection =
  det_x :: real
  det_y :: real
  det_width :: real
  det_height :: real
  confidence :: real
  cls :: string

record detectionStats =
  totalDetections :: nat
  averageConfidence :: real
  lastDetectionTime :: nat
  classCounts :: "string \<rightharpoonup> nat"

text \<open>The stats literal of page.tsx (lines 23-28, 89-94, 242-247).\<close>

definition zeroStats :: detectionStats where
  "zeroStats = \<lparr>totalDetections = 0, averageConfidence = 0, lastDetectionTime = 0,
                 classCounts = Map.empty\<rparr>"

type_synonym frame = nat

section \<open>DetectionAggregator\<close>

text \<open>
  Modelled from the spec: the aggregator's per-class counter (the stats code of
  lib/video-processor.ts is not among the sources). Spec 3: keys are created on first
  occurrence, counts are cumulative.
\<close>

definition bumpClass :: "(string \<rightharpoonup> nat) \<Rightarrow> string \<Rightarrow> (string \<rightharpoonup> nat)" where
  "bumpClass m c = m(c \<mapsto> (case m c of None \<Rightarrow> 1 | Some n \<Rightarrow> Suc n))"

text \<open>
  Modelled from the spec: \<^verbatim>\<open>ingest(batch)\<close> of spec 4.2 (lib/video-processor.ts is
  not among the sources). The average follows the spec's formula
  \<^verbatim>\<open>newAvg = oldAvg + (sum(batchConfidences) - oldAvg*batchSize) / newTotal\<close>, with the
  old average kept when \<^verbatim>\<open>newTotal == 0\<close>; \<^verbatim>\<open>lastDetectionTime\<close> moves only on a
  non-empty batch. The clock reading \<open>now\<close> is an argument.
\<close>

definition ingest :: "detectionStats \<Rightarrow> nat \<Rightarrow> detection list \<Rightarrow> detectionStats" where
  "ingest st now batch =
     (let batchSize = length batch;
          newTotal = totalDetections st + batchSize;
          oldAvg = averageConfidence st;
          newAvg = (if newTotal = 0 then oldAvg
                    else oldAvg + (sum_list (map confidence batch) - oldAvg * real batchSize)
                                  / real newTotal)
      in \<lparr>totalDetections = newTotal,
          averageConfidence = newAvg,
          lastDetectionTime = (if batch = [] then lastDetectionTime st else now),
          classCounts = foldl bumpClass (classCounts st) (map cls batch)\<rparr>)"

text \<open>
  Modelled from the spec: the aggregator's \<^verbatim>\<open>reset()\<close> of spec 4.2, which zeroes all
  fields (lib/video-processor.ts is not among the sources).
\<close>

definition agg_reset :: "detectionStats \<Rightarrow> detectionStats" where
  "agg_reset st = zeroStats"

text \<open>Feeding a sequence of batches, each with the clock reading of its ingestion.\<close>

fun ingest_all :: "detectionStats \<Rightarrow> (nat \<times> detection list) list \<Rightarrow> detectionStats" where
  "ingest_all st [] = st"
| "ingest_all st ((now, batch) # rest) = ingest_all (ingest st now batch) rest"

section \<open>CoordinateMapper\<close>

record rect =
  r_x :: real
  r_y :: real
  r_width :: real
  r_height :: real

text \<open>
  Modelled from the spec: the CoordinateMapper of spec 4.3 (components/detection-overlay
  is not among the sources): independent linear scaling of each axis with
  \<^verbatim>\<open>scaleX = displayWidth / modelWidth\<close> and \<^verbatim>\<open>scaleY = displayHeight / modelHeight\<close>.
\<close>

definition mapToDisplay :: "detection \<Rightarrow> real \<times> real \<Rightarrow> real \<times> real \<Rightarrow> rect" where
  "mapToDisplay d model display =
     (let scaleX = fst display / fst model;
          scaleY = snd display / snd model
      in \<lparr>r_x = det_x d * scaleX, r_y = det_y d * scaleY,
          r_width = det_width d * scaleX, r_height = det_height d * scaleY\<rparr>)"

section \<open>VideoProcessor\<close>

text \<open>
  Modelled from the spec: the state of the class \<^verbatim>\<open>VideoProcessor\<close>
  (lib/video-processor.ts), which page.tsx uses and which is not among the sources: the
  processing flag that \<^verbatim>\<open>isProcessingStopped()\<close> reads (spec 4.1), the aggregated
  stats (spec 3), and the batches it has published (spec 6). Its methods are modelled
  as returning normally.
\<close>

record videoProcessor =
  vp_processing :: bool
  vp_stats :: detectionStats
  vp_batches :: "detection list list"

text \<open>
  Modelled from the spec: the constructor of \<^verbatim>\<open>VideoProcessor\<close> (not among the
  sources); a fresh processor is idle, with zeroed stats and nothing published (spec 3,
  spec 4.1).
\<close>

definition vp_new :: videoProcessor where
  "vp_new = \<lparr>vp_processing = False, vp_stats = zeroStats, vp_batches = []\<rparr>"

text \<open>
  Modelled from the spec: \<^verbatim>\<open>VideoProcessor.setVideo\<close> (not among the sources) binds the
  frame source; the frames themselves are the environment's, so the processor's state
  is unchanged.
\<close>

definition vp_setVideo :: "videoProcessor \<Rightarrow> videoProcessor" where
  "vp_setVideo p = p"

text \<open>
  Modelled from the spec: \<^verbatim>\<open>VideoProcessor.startProcessing\<close> (not among the sources),
  the transition to Running of spec 4.1.
\<close>

definition vp_startProcessing :: "videoProcessor \<Rightarrow> videoProcessor" where
  "vp_startProcessing p = p\<lparr>vp_processing := True\<rparr>"

text \<open>
  Modelled from the spec: \<^verbatim>\<open>VideoProcessor.stopProcessing\<close> (not among the sources),
  the transition to Stopped of spec 4.1; stats and published batches are kept.
\<close>

definition vp_stopProcessing :: "videoProcessor \<Rightarrow> videoProcessor" where
  "vp_stopProcessing p = p\<lparr>vp_processing := False\<rparr>"

text \<open>
  Modelled from the spec: \<^verbatim>\<open>VideoProcessor.isProcessingStopped\<close> (not among the
  sources) reads the flag set by start and stop.
\<close>

definition isProcessingStopped :: "videoProcessor \<Rightarrow> bool" where
  "isProcessingStopped p = (\<not> vp_processing p)"

text \<open>
  Modelled from the spec: \<^verbatim>\<open>VideoProcessor.getCurrentFrame\<close> (not among the sources),
  the FrameSource pull of spec 4.4. The argument is what the video element has
  available at that moment (nothing when the video has ended or is not yet decoded);
  a processor that is not running yields nothing (spec 4.1, step 1).
\<close>

definition getCurrentFrame :: "videoProcessor \<Rightarrow> frame option \<Rightarrow> frame option" where
  "getCurrentFrame p available = (if vp_processing p then available else None)"

text \<open>
  Modelled from the spec: \<^verbatim>\<open>VideoProcessor.updateDetections\<close> (not among the sources),
  step 5 of spec 4.1: a stopped processor discards the result; otherwise the batch is
  fed to the aggregator and both callbacks of the constructor are invoked, the first
  with the batch and the second with a snapshot of the stats. The result is the new
  processor and the arguments of the callbacks, if they were invoked.
\<close>

definition updateDetections ::
  "videoProcessor \<Rightarrow> nat \<Rightarrow> detection list
     \<Rightarrow> videoProcessor \<times> (detection list \<times> detectionStats) option" where
  "updateDetections p now newDetections =
     (if \<not> vp_processing p then (p, None)
      else (p\<lparr>vp_stats := ingest (vp_stats p) now newDetections,
              vp_batches := vp_batches p @ [newDetections]\<rparr>,
            Some (newDetections, ingest (vp_stats p) now newDetections)))"

text \<open>
  Modelled from the spec: \<^verbatim>\<open>VideoProcessor.reset\<close> (not among the sources) clears the
  aggregator and leaves the processing flag alone (spec 4.1, spec 4.2).
\<close>

definition vp_reset :: "videoProcessor \<Rightarrow> videoProcessor" where
  "vp_reset p = p\<lparr>vp_stats := agg_reset (vp_stats p)\<rparr>"

text \<open>
  Modelled from the spec: \<^verbatim>\<open>VideoProcessor.exportDetections\<close> (not among the sources)
  returns all batches this processor has published (spec 6).
\<close>

definition exportDetections :: "videoProcessor \<Rightarrow> detection list list" where
  "exportDetections p = vp_batches p"

text \<open>
  Modelled from the spec: \<^verbatim>\<open>VideoProcessor.exportStats\<close> (not among the sources)
  returns a snapshot of the aggregator's stats (spec 4.2, spec 6).
\<close>

definition exportStats :: "videoProcessor \<Rightarrow> detectionStats" where
  "exportStats p = vp_stats p"

section \<open>The page component (app/page.tsx)\<close>

text \<open>
  One detect loop is the closure \<^verbatim>\<open>detectLoop\<close> created by one call of
  \<^verbatim>\<open>startProcessing\<close>. It is waiting for its animation frame (\<open>Scheduled\<close>),
  suspended at \<^verbatim>\<open>await detectObjects(frame)\<close> (\<open>Awaiting\<close>), or has returned without
  rescheduling itself (\<open>Finished\<close>).
\<close>

datatype loop = Scheduled | Awaiting frame | Finished

datatype log_entry = InitError | DetectionError string | TypeError

text \<open>
  The React state and refs of \<^verbatim>\<open>Home\<close>, together with what its environment holds:
  the detect loops, the frames handed to \<^verbatim>\<open>detectObjects\<close> so far, and the
  \<^verbatim>\<open>console.error\<close> entries. \<open>detectorRef\<close> says whether the ref holds a detector.
\<close>

record page =
  selectedFile :: "string option"
  isProcessing :: bool
  isPaused :: bool
  detections :: "detection list"
  stats :: detectionStats
  error :: "string option"
  isCameraActive :: bool
  detectorRef :: bool
  processorRef :: "videoProcessor option"
  loops :: "loop list"
  submitted :: "frame list"
  console :: "log_entry list"

definition initial :: page where
  "initial = \<lparr>selectedFile = None, isProcessing = False, isPaused = False,
               detections = [], stats = zeroStats, error = None,
               isCameraActive = False, detectorRef = False, processorRef = None,
               loops = [], submitted = [], console = []\<rparr>"

text \<open>The video element is rendered, and the ref set, exactly when there is a source
  (line 335).\<close>

definition videoRef :: "page \<Rightarrow> bool" where
  "videoRef s = (selectedFile s \<noteq> None \<or> isCameraActive s)"

text \<open>\<^verbatim>\<open>initDetector\<close> (lines 40-52); the argument says whether initialisation succeeded.\<close>

definition initDetector :: "bool \<Rightarrow> page \<Rightarrow> page" where
  "initDetector ok s =
     (if ok then s\<lparr>detectorRef := True, error := None\<rparr>
      else s\<lparr>error := Some ''Failed to initialize AI detector. Please check that the model file is available.'',
             console := console s @ [InitError]\<rparr>)"

text \<open>Lines 76-84.\<close>

definition handleVideoSelect :: "string \<Rightarrow> page \<Rightarrow> page" where
  "handleVideoSelect file s = s\<lparr>selectedFile := Some file, error := None\<rparr>"

text \<open>Lines 86-103.\<close>

definition handleClearVideo :: "page \<Rightarrow> page" where
  "handleClearVideo s =
     s\<lparr>selectedFile := None, detections := [], stats := zeroStats,
       processorRef := map_option vp_reset (processorRef s)\<rparr>"

text \<open>Lines 106-141 and 143-154, as far as the state of the page goes.\<close>

definition handleCameraStart :: "page \<Rightarrow> page" where
  "handleCameraStart s = s\<lparr>isCameraActive := True, error := None\<rparr>"

definition handleCameraStop :: "page \<Rightarrow> page" where
  "handleCameraStop s = s\<lparr>isCameraActive := False\<rparr>"

text \<open>The two callbacks given to the \<^verbatim>\<open>VideoProcessor\<close> constructor (lines 166-172).\<close>

definition onDetectionsUpdate :: "detection list \<Rightarrow> page \<Rightarrow> page" where
  "onDetectionsUpdate newDetections s = s\<lparr>detections := newDetections\<rparr>"

definition onStatsUpdate :: "detectionStats \<Rightarrow> page \<Rightarrow> page" where
  "onStatsUpdate newStats s = s\<lparr>stats := newStats\<rparr>"

text \<open>The state of loop \<open>i\<close> becomes \<open>l\<close>.\<close>

definition setLoop :: "nat \<Rightarrow> loop \<Rightarrow> page \<Rightarrow> page" where
  "setLoop i l s = s\<lparr>loops := (loops s)[i := l]\<rparr>"

text \<open>Lines 193-196: the loop asks for another animation frame unless the current
  processor is stopped.\<close>

definition detectLoop_reschedule :: "nat \<Rightarrow> page \<Rightarrow> page" where
  "detectLoop_reschedule i s =
     (case processorRef s of
        None \<Rightarrow> setLoop i Finished s
      | Some p \<Rightarrow> if \<not> isProcessingStopped p then setLoop i Scheduled s
                  else setLoop i Finished s)"

text \<open>Lines 181-186: one run of \<^verbatim>\<open>detectLoop\<close> up to its \<^verbatim>\<open>await\<close>, or to its end
  when there is no frame.\<close>

definition detectLoop :: "nat \<Rightarrow> frame option \<Rightarrow> page \<Rightarrow> page" where
  "detectLoop i available s =
     (case processorRef s of
        None \<Rightarrow> setLoop i Finished s
      | Some p \<Rightarrow>
          if \<not> detectorRef s then setLoop i Finished s
          else (case getCurrentFrame p available of
                  Some f \<Rightarrow> setLoop i (Awaiting f) (s\<lparr>submitted := submitted s @ [f]\<rparr>)
                | None \<Rightarrow> detectLoop_reschedule i s))"

text \<open>Lines 186-196: the rest of \<^verbatim>\<open>detectLoop\<close> once the awaited call has settled,
  with the rejection (\<open>Inl\<close>) or the detections (\<open>Inr\<close>); \<open>now\<close> is the clock.\<close>

definition detectLoop_settled :: "nat \<Rightarrow> nat \<Rightarrow> string + detection list \<Rightarrow> page \<Rightarrow> page" where
  "detectLoop_settled i now r s =
     detectLoop_reschedule i
       (case r of
          Inl err \<Rightarrow> s\<lparr>console := console s @ [DetectionError err]\<rparr>
        | Inr newDetections \<Rightarrow>
            (case processorRef s of
               None \<Rightarrow> s\<lparr>console := console s @ [TypeError]\<rparr>
             | Some p \<Rightarrow>
                 (case updateDetections p now newDetections of
                    (p', None) \<Rightarrow> s\<lparr>processorRef := Some p'\<rparr>
                  | (p', Some (ds, st)) \<Rightarrow>
                      onStatsUpdate st (onDetectionsUpdate ds (s\<lparr>processorRef := Some p'\<rparr>)))))"

text \<open>Lines 157-205. The new loop is entered at once (line 199) with what the video
  has available at that moment. Nothing before the first \<^verbatim>\<open>await\<close> throws in this
  model, so the \<^verbatim>\<open>catch\<close> of lines 200-204 is not entered.\<close>

definition startProcessing :: "frame option \<Rightarrow> page \<Rightarrow> page" where
  "startProcessing available s =
     (if \<not> detectorRef s \<or> \<not> videoRef s then s
      else let processor = vp_startProcessing (vp_setVideo vp_new)
           in detectLoop (length (loops s)) available
                (s\<lparr>isProcessing := True, isPaused := False, error := None,
                   processorRef := Some processor,
                   loops := loops s @ [Scheduled]\<rparr>))"

text \<open>Lines 207-214.\<close>

definition stopProcessing :: "page \<Rightarrow> page" where
  "stopProcessing s =
     s\<lparr>isProcessing := False, isPaused := False,
       processorRef := map_option vp_stopProcessing (processorRef s)\<rparr>"

text \<open>Lines 216-218.\<close>

definition togglePause :: "page \<Rightarrow> page" where
  "togglePause s = s\<lparr>isPaused := \<not> isPaused s\<rparr>"

text \<open>Lines 240-252.\<close>

definition handleReset :: "page \<Rightarrow> page" where
  "handleReset s =
     s\<lparr>detections := [], stats := zeroStats,
       processorRef := map_option vp_reset (processorRef s)\<rparr>"

subsection \<open>Export (lines 221-238)\<close>







subsection \<open>Events\<close>

text \<open>
  What can happen to the page: the detector finishes initialising, the user picks or
  clears a video, starts or stops the camera, presses a button, the animation frame of
  loop \<open>i\<close> fires, or the inference awaited by loop \<open>i\<close> settles. The Pause and Stop
  buttons are disabled unless \<open>isProcessing\<close> (lines 395, 414), the Start button
  unless there is a source (line 386).
\<close>

datatype event =
    DetectorInit bool
  | VideoSelect string
  | ClearVideo
  | CameraStart
  | CameraStop
  | Start "frame option"
  | Stop
  | TogglePause
  | Reset
  | Tick nat "frame option"
  | Settle nat nat "string + detection list"

text \<open>A loop suspended at its \<^verbatim>\<open>await\<close>: an inference call that has been submitted and has
  not settled.\<close>

fun awaiting :: "loop \<Rightarrow> bool" where
  "awaiting (Awaiting f) = True"
| "awaiting l = False"

fun step :: "page \<Rightarrow> event \<Rightarrow> page" where
  "step s (DetectorInit ok) = initDetector ok s"
| "step s (VideoSelect file) = handleVideoSelect file s"
| "step s ClearVideo = handleClearVideo s"
| "step s CameraStart = handleCameraStart s"
| "step s CameraStop = handleCameraStop s"
| "step s (Start available) =
     (if selectedFile s = None \<and> \<not> isCameraActive s then s else startProcessing available s)"
| "step s Stop = (if isProcessing s then stopProcessing s else s)"
| "step s TogglePause = (if isProcessing s then togglePause s else s)"
| "step s Reset = handleReset s"
| "step s (Tick i available) =
     (if i < length (loops s) \<and> loops s ! i = Scheduled then detectLoop i available s else s)"
| "step s (Settle i now r) =
     (if i < length (loops s) \<and> awaiting (loops s ! i)
      then detectLoop_settled i now r s else s)"

definition run :: "page \<Rightarrow> event list \<Rightarrow> page" where
  "run s es = foldl step s es"

text \<open>The number of inference calls in flight.\<close>

definition inflight :: "page \<Rightarrow> nat" where
  "inflight s = length (filter awaiting (loops s))"

fun isStart :: "event \<Rightarrow> bool" where
  "isStart (Start available) = True"
| "isStart e = False"

fun isSettle :: "event \<Rightarrow> bool" where
  "isSettle (Settle i now r) = True"
| "isSettle e = False"

text \<open>The batch, if any, that an event hands to the callback of line 166: the one
  \<^verbatim>\<open>updateDetections\<close> passes on when a call awaited by a loop settles with detections
  (lines 186-187).\<close>

fun publication :: "page \<Rightarrow> event \<Rightarrow> detection list option" where
  "publication s (Settle i now r) =
     (if i < length (loops s) \<and> awaiting (loops s ! i)
      then (case r of
              Inl err \<Rightarrow> None
            | Inr newDetections \<Rightarrow>
                (case processorRef s of
                   None \<Rightarrow> None
                 | Some p \<Rightarrow> map_option fst (snd (updateDetections p now newDetections))))
      else None)"
| "publication s e = None"








text \<open>No processor is running: there is none, or the current one is stopped.\<close>

definition halted :: "page \<Rightarrow> bool" where
  "halted s = (case processorRef s of None \<Rightarrow> True | Some p \<Rightarrow> \<not> vp_processing p)"


subsection \<open>Sample data\<close>

text \<open>Three detections (those of the end-to-end scenario of spec 8) and the page once
  the detector is initialised and a video is selected.\<close>

definition car :: detection where
  "car = \<lparr>det_x = 0, det_y = 0, det_width = 10, det_height = 20,
           confidence = 9/10, cls = ''car''\<rparr>"

definition car2 :: detection where
  "car2 = \<lparr>det_x = 5, det_y = 5, det_width = 10, det_height = 20,
            confidence = 1/2, cls = ''car''\<rparr>"

definition person :: detection where
  "person = \<lparr>det_x = 1, det_y = 2, det_width = 3, det_height = 4,
              confidence = 7/10, cls = ''person''\<rparr>"

definition ready :: page where
  "ready = run initial [DetectorInit True, VideoSelect ''clip.mp4'']"

section \<open>Unfolding\<close>

lemmas handler_defs = initDetector_def handleVideoSelect_def handleClearVideo_def
  handleCameraStart_def handleCameraStop_def startProcessing_def stopProcessing_def
  togglePause_def handleReset_def videoRef_def

lemmas loop_defs = detectLoop_def detectLoop_settled_def detectLoop_reschedule_def
  setLoop_def onStatsUpdate_def onDetectionsUpdate_def

lemmas vp_defs = vp_new_def vp_setVideo_def vp_startProcessing_def vp_stopProcessing_def
  isProcessingStopped_def getCurrentFrame_def updateDetections_def vp_reset_def
  exportDetections_def exportStats_def

lemmas eval_defs = run_def ready_def initial_def handler_defs loop_defs vp_defs Let_def

section \<open>The scheduling loop\<close>

subsection \<open>The number of loops\<close>

lemma length_loops_setLoop [simp]: "length (loops (setLoop i l s)) = length (loops s)"
  by (simp add: setLoop_def)

lemma length_loops_reschedule [simp]: "length (loops (detectLoop_reschedule i s)) = length (loops s)"
  by (simp add: detectLoop_reschedule_def split: option.splits)

lemma length_loops_detectLoop [simp]: "length (loops (detectLoop i a s)) = length (loops s)"
  by (simp add: detectLoop_def split: option.splits)

lemma length_loops_settled [simp]: "length (loops (detectLoop_settled i now r s)) = length (loops s)"
  by (simp add: detectLoop_settled_def onStatsUpdate_def onDetectionsUpdate_def split: option.splits sum.splits prod.splits)

lemma length_loops_step:
  "length (loops (step s e)) \<le> length (loops s) + (if isStart e then 1 else 0)"
  by (cases e) (simp_all add: initDetector_def handleVideoSelect_def handleClearVideo_def
      handleCameraStart_def handleCameraStop_def startProcessing_def stopProcessing_def
      togglePause_def handleReset_def)

lemma length_loops_run:
  "length (loops (run s es)) \<le> length (loops s) + length (filter isStart es)"
proof (induction es arbitrary: s)
  case Nil
  then show ?case by (simp add: run_def)
next
  case (Cons e es)
  have "length (loops (run s (e # es))) = length (loops (run (step s e) es))"
    by (simp add: run_def)
  also have "\<dots> \<le> length (loops (step s e)) + length (filter isStart es)"
    by (rule Cons.IH)
  also have "\<dots> \<le> length (loops s) + (if isStart e then 1 else 0) + length (filter isStart es)"
    using length_loops_step [of s e] by simp
  finally show ?case by (simp split: if_splits)
qed

subsection \<open>Submissions and calls in flight\<close>

lemma filter_update_count:
  "i < length xs \<Longrightarrow>
     length (filter P (xs[i := v])) + (if P (xs ! i) then 1 else 0)
       = length (filter P xs) + (if P v then (1::nat) else 0)"
proof (induction xs arbitrary: i)
  case Nil
  then show ?case by simp
next
  case (Cons x xs)
  show ?case
  proof (cases i)
    case 0
    then show ?thesis by simp
  next
    case (Suc j)
    with Cons.prems have "j < length xs" by simp
    from Cons.IH [OF this] Suc show ?thesis by (auto split: if_splits)
  qed
qed

lemma inflight_setLoop:
  "i < length (loops s) \<Longrightarrow>
     inflight (setLoop i l s) + (if awaiting (loops s ! i) then 1 else 0)
       = inflight s + (if awaiting l then 1 else 0)"
  using filter_update_count [of i "loops s" awaiting l]
  by (simp add: inflight_def setLoop_def)

lemma submitted_setLoop [simp]: "submitted (setLoop i l s) = submitted s"
  by (simp add: setLoop_def)

lemma loops_setLoop_nth: "i < length (loops s) \<Longrightarrow> loops (setLoop i l s) ! i = l"
  by (simp add: setLoop_def)

lemma reschedule_balance:
  "i < length (loops s) \<Longrightarrow>
     submitted (detectLoop_reschedule i s) = submitted s
     \<and> inflight (detectLoop_reschedule i s) + (if awaiting (loops s ! i) then 1 else 0)
         = inflight s"
  using inflight_setLoop [of i s Scheduled] inflight_setLoop [of i s Finished]
  by (auto simp: detectLoop_reschedule_def split: option.splits if_splits)

lemma detectLoop_balance:
  assumes "i < length (loops s)" and "\<not> awaiting (loops s ! i)"
  shows "length (submitted (detectLoop i a s)) + inflight s
           = length (submitted s) + inflight (detectLoop i a s)"
proof (cases "processorRef s")
  case None
  then show ?thesis
    using assms inflight_setLoop [of i s Finished] by (simp add: detectLoop_def)
next
  case (Some p)
  show ?thesis
  proof (cases "detectorRef s")
    case False
    then show ?thesis
      using Some assms inflight_setLoop [of i s Finished] by (simp add: detectLoop_def)
  next
    case True
    show ?thesis
    proof (cases "getCurrentFrame p a")
      case None
      then show ?thesis
        using Some True assms reschedule_balance [of i s] by (simp add: detectLoop_def)
    next
      case (Some f)
      have "inflight (setLoop i (Awaiting f) (s\<lparr>submitted := submitted s @ [f]\<rparr>))
              = inflight (s\<lparr>submitted := submitted s @ [f]\<rparr>) + 1"
        using assms inflight_setLoop [of i "s\<lparr>submitted := submitted s @ [f]\<rparr>" "Awaiting f"]
        by simp
      moreover have "inflight (s\<lparr>submitted := submitted s @ [f]\<rparr>) = inflight s"
        by (simp add: inflight_def)
      ultimately show ?thesis
        using \<open>processorRef s = Some p\<close> True Some by (simp add: detectLoop_def)
    qed
  qed
qed

lemma settled_balance:
  assumes "i < length (loops s)" and "awaiting (loops s ! i)"
  shows "submitted (detectLoop_settled i now r s) = submitted s
       \<and> inflight (detectLoop_settled i now r s) + 1 = inflight s"
proof -
  define t where "t =
       (case r of
          Inl err \<Rightarrow> s\<lparr>console := console s @ [DetectionError err]\<rparr>
        | Inr newDetections \<Rightarrow>
            (case processorRef s of
               None \<Rightarrow> s\<lparr>console := console s @ [TypeError]\<rparr>
             | Some p \<Rightarrow>
                 (case updateDetections p now newDetections of
                    (p', None) \<Rightarrow> s\<lparr>processorRef := Some p'\<rparr>
                  | (p', Some (ds, st)) \<Rightarrow>
                      onStatsUpdate st (onDetectionsUpdate ds (s\<lparr>processorRef := Some p'\<rparr>)))))"
  have t: "loops t = loops s \<and> submitted t = submitted s"
    unfolding t_def
    by (simp add: onStatsUpdate_def onDetectionsUpdate_def updateDetections_def
          split: sum.splits option.splits prod.splits)
  then have "inflight t = inflight s" by (simp add: inflight_def)
  moreover have "detectLoop_settled i now r s = detectLoop_reschedule i t"
    by (simp add: detectLoop_settled_def t_def)
  ultimately show ?thesis
    using assms t reschedule_balance [of i t] by simp
qed

lemma start_balance:
  "length (submitted (startProcessing a s)) + inflight s
     = length (submitted s) + inflight (startProcessing a s)"
proof (cases "\<not> detectorRef s \<or> \<not> videoRef s")
  case True
  then show ?thesis by (simp add: startProcessing_def)
next
  case False
  define t where "t = s\<lparr>isProcessing := True, isPaused := False, error := None,
                   processorRef := Some (vp_startProcessing (vp_setVideo vp_new)),
                   loops := loops s @ [Scheduled]\<rparr>"
  have "length (submitted (detectLoop (length (loops s)) a t)) + inflight t
          = length (submitted t) + inflight (detectLoop (length (loops s)) a t)"
    by (rule detectLoop_balance) (simp_all add: t_def)
  moreover have "inflight t = inflight s" and "submitted t = submitted s"
    by (simp_all add: t_def inflight_def)
  moreover have "startProcessing a s = detectLoop (length (loops s)) a t"
    using False by (simp add: startProcessing_def t_def Let_def)
  ultimately show ?thesis by simp
qed

lemma step_balance:
  "length (submitted (step s e)) + inflight s
     \<le> length (submitted s) + inflight (step s e) + (if isSettle e then 1 else 0)"
proof (cases e)
  case (Start a)
  then show ?thesis using start_balance [of a s] by simp
next
  case (Tick i a)
  then show ?thesis using detectLoop_balance [of i s a] by auto
next
  case (Settle i now r)
  then show ?thesis using settled_balance [of i s now r] by auto
qed (simp_all add: initDetector_def handleVideoSelect_def handleClearVideo_def
      handleCameraStart_def handleCameraStop_def stopProcessing_def
      togglePause_def handleReset_def inflight_def)

lemma run_balance:
  "length (submitted (run s es)) + inflight s
     \<le> length (submitted s) + inflight (run s es) + length (filter isSettle es)"
proof (induction es arbitrary: s)
  case Nil
  then show ?case by (simp add: run_def)
next
  case (Cons e es)
  have r: "run s (e # es) = run (step s e) es" by (simp add: run_def)
  have "length (submitted (run (step s e) es)) + inflight (step s e)
          \<le> length (submitted (step s e)) + inflight (run (step s e) es)
             + length (filter isSettle es)"
    by (rule Cons.IH)
  with step_balance [of s e] show ?case
    unfolding r by (simp split: if_splits)
qed

text \<open>
  C1 (at most one inference in flight), as the code has it. Each call of
  \<^verbatim>\<open>startProcessing\<close> that passes its guard adds one detect loop, and nothing else
  does; a loop submits a frame only when it is not suspended, and is then suspended at
  its \<^verbatim>\<open>await\<close> until that call settles, so every frame submitted is either still in
  flight or was followed by its settling. Hence the number of calls in flight never
  exceeds the number of Start events, and the number of frames submitted never exceeds
  the calls in flight plus the Settle events: with a single start at most one call is
  in flight and the loop cannot submit again before that call has settled. A tick
  addressed to a suspended loop changes nothing.
\<close>

theorem C1_inflight_bounded_by_starts:
  "inflight (run initial es) \<le> length (filter isStart es)
   \<and> length (submitted (run initial es))
       \<le> inflight (run initial es) + length (filter isSettle es)
   \<and> length (submitted (run initial es))
       \<le> length (filter isSettle es) + length (filter isStart es)
   \<and> (i < length (loops s) \<and> awaiting (loops s ! i) \<longrightarrow> step s (Tick i available) = s)"
proof (intro conjI)
  have "inflight (run initial es) \<le> length (loops (run initial es))"
    by (simp add: inflight_def)
  also have "\<dots> \<le> length (loops initial) + length (filter isStart es)"
    by (rule length_loops_run)
  finally show a: "inflight (run initial es) \<le> length (filter isStart es)"
    by (simp add: initial_def)
  show b: "length (submitted (run initial es))
       \<le> inflight (run initial es) + length (filter isSettle es)"
    using run_balance [of initial es] by (simp add: initial_def inflight_def)
  from a b show "length (submitted (run initial es))
       \<le> length (filter isSettle es) + length (filter isStart es)"
    by simp
  show "i < length (loops s) \<and> awaiting (loops s ! i) \<longrightarrow> step s (Tick i available) = s"
    by (cases "loops s ! i") auto
qed

text \<open>The bounds at a single start, and a tick that finds its loop suspended.\<close>

theorem C1_witness:
  "inflight (run initial [DetectorInit True, VideoSelect ''clip.mp4'', Start (Some 0)]) \<le> 1
   \<and> length (submitted (run initial [DetectorInit True, VideoSelect ''clip.mp4'', Start (Some 0),
                 Settle 0 9 (Inr [car]), Tick 0 (Some 1)])) \<le> 2
   \<and> submitted (run initial [DetectorInit True, VideoSelect ''clip.mp4'', Start (Some 0),
                 Settle 0 9 (Inr [car]), Tick 0 (Some 1)]) = [0, 1]
   \<and> awaiting (loops (run ready [Start (Some 0)]) ! 0)
   \<and> step (run ready [Start (Some 0)]) (Tick 0 (Some 1)) = run ready [Start (Some 0)]
   \<and> submitted (step (run ready [Start (Some 0)]) (Tick 0 (Some 1))) = [0]"
  using C1_inflight_bounded_by_starts
    [of "[DetectorInit True, VideoSelect ''clip.mp4'', Start (Some 0)]" 0
        "run ready [Start (Some 0)]" "Some 1"]
    C1_inflight_bounded_by_starts
    [of "[DetectorInit True, VideoSelect ''clip.mp4'', Start (Some 0),
          Settle 0 9 (Inr [car]), Tick 0 (Some 1)]" 0 "run ready [Start (Some 0)]" "Some 1"]
  by (simp add: eval_defs)

text \<open>
  C1 as stated fails once Start is pressed twice (the button stays enabled while
  processing, line 386): the first loop goes on with the new processor, and its tick
  submits frame 2 while the call of the second loop is still unsettled.
\<close>

theorem C1_counterexample:
  "inflight (run ready [Start (Some 0), Start (Some 1), Settle 0 5 (Inr [])]) = 1
   \<and> inflight (run ready [Start (Some 0), Start (Some 1), Settle 0 5 (Inr []), Tick 0 (Some 2)]) = 2
   \<and> submitted (run ready [Start (Some 0), Start (Some 1), Settle 0 5 (Inr []), Tick 0 (Some 2)])
       = [0, 1, 2]"
  by (simp add: eval_defs inflight_def)

subsection \<open>Stopping\<close>

lemma halted_stop: "halted (stopProcessing s)"
  by (cases "processorRef s") (simp_all add: halted_def stopProcessing_def vp_stopProcessing_def)

lemma processorRef_setLoop [simp]: "processorRef (setLoop i l s) = processorRef s"
  by (simp add: setLoop_def)

lemma processorRef_reschedule [simp]: "processorRef (detectLoop_reschedule i s) = processorRef s"
  by (simp add: detectLoop_reschedule_def split: option.splits)

lemma processorRef_detectLoop [simp]: "processorRef (detectLoop i a s) = processorRef s"
  by (simp add: detectLoop_def split: option.splits)

lemma processorRef_same: "processorRef s = Some p \<Longrightarrow> s\<lparr>processorRef := Some p\<rparr> = s"
proof -
  assume "processorRef s = Some p"
  then have "Some p = processorRef s" by simp
  then show ?thesis by simp
qed

lemma settled_halted:
  assumes "halted s"
  shows "detectLoop_settled i now r s =
           setLoop i Finished
             (case r of Inl err \<Rightarrow> s\<lparr>console := console s @ [DetectionError err]\<rparr>
              | Inr ds \<Rightarrow> (case processorRef s of
                            None \<Rightarrow> s\<lparr>console := console s @ [TypeError]\<rparr>
                          | Some p \<Rightarrow> s))"
  using assms
  by (cases r; cases "processorRef s")
     (simp_all add: halted_def detectLoop_settled_def detectLoop_reschedule_def
        updateDetections_def isProcessingStopped_def processorRef_same)

lemma halted_step: "halted s \<Longrightarrow> \<not> isStart e \<Longrightarrow> halted (step s e)"
proof (cases e)
  case (Settle i now r)
  assume h: "halted s"
  show ?thesis
    using h unfolding Settle
    by (cases r; cases "processorRef s") (simp_all add: settled_halted halted_def setLoop_def)
qed (auto simp: halted_def handler_defs vp_reset_def vp_stopProcessing_def split: option.splits)

lemma halted_run: "halted s \<Longrightarrow> list_all (\<lambda>e. \<not> isStart e) es \<Longrightarrow> halted (run s es)"
proof (induction es arbitrary: s)
  case Nil
  then show ?case by (simp add: run_def)
next
  case (Cons e es)
  from Cons.prems have "halted (step s e)" by (simp add: halted_step)
  with Cons show ?case by (simp add: run_def)
qed

lemma settle_halted_frame:
  assumes "halted s"
  shows "detections (step s (Settle i now r)) = detections s
       \<and> stats (step s (Settle i now r)) = stats s
       \<and> processorRef (step s (Settle i now r)) = processorRef s
       \<and> (i < length (loops s) \<and> awaiting (loops s ! i)
            \<longrightarrow> loops (step s (Settle i now r)) ! i = Finished)"
  using assms
  by (cases r; cases "processorRef s") (simp_all add: settled_halted setLoop_def)

text \<open>
  C2 (a call that settles after stop), as the code has it. \<^verbatim>\<open>detectLoop\<close> hands the
  result to \<^verbatim>\<open>updateDetections\<close> of whichever processor is current when the call
  settles, with no check of its own. As long as no Start event comes between the stop
  and the settling, that processor is the stopped one: the result changes neither the
  published detections nor the stats nor the processor, and the loop is not
  rescheduled.
\<close>

theorem C2_discarded_unless_restarted:
  assumes "list_all (\<lambda>e. \<not> isStart e) es"
  shows "detections (step (run (stopProcessing s) es) (Settle i now r))
           = detections (run (stopProcessing s) es)
       \<and> stats (step (run (stopProcessing s) es) (Settle i now r))
           = stats (run (stopProcessing s) es)
       \<and> processorRef (step (run (stopProcessing s) es) (Settle i now r))
           = processorRef (run (stopProcessing s) es)
       \<and> (i < length (loops (run (stopProcessing s) es))
            \<and> awaiting (loops (run (stopProcessing s) es) ! i)
            \<longrightarrow> loops (step (run (stopProcessing s) es) (Settle i now r)) ! i = Finished)"
  by (rule settle_halted_frame) (rule halted_run [OF halted_stop assms])

text \<open>A call in flight at the stop, a reset in between, then the call settles.\<close>

theorem C2_witness:
  "awaiting (loops (run ready [Start (Some 0)]) ! 0)
   \<and> detections (step (run (stopProcessing (run ready [Start (Some 0)])) [Reset])
                    (Settle 0 9 (Inr [car]))) = []
   \<and> stats (step (run (stopProcessing (run ready [Start (Some 0)])) [Reset])
               (Settle 0 9 (Inr [car]))) = zeroStats
   \<and> loops (step (run (stopProcessing (run ready [Start (Some 0)])) [Reset])
               (Settle 0 9 (Inr [car]))) ! 0 = Finished"
  using C2_discarded_unless_restarted
    [of "[Reset]" "run ready [Start (Some 0)]" 0 9 "Inr [car]"]
  by (simp add: eval_defs)

text \<open>
  C2 as stated fails when Start is pressed again before the pending call settles: the
  result of the call submitted before the stop is published through the new processor.
\<close>

theorem C2_counterexample:
  "awaiting (loops (run ready [Start (Some 0)]) ! 0)
   \<and> detections (run ready [Start (Some 0), Stop, Start (Some 1)]) = []
   \<and> totalDetections (stats (run ready [Start (Some 0), Stop, Start (Some 1)])) = 0
   \<and> detections (run ready [Start (Some 0), Stop, Start (Some 1), Settle 0 9 (Inr [car])]) = [car]
   \<and> totalDetections (stats (run ready [Start (Some 0), Stop, Start (Some 1),
                                        Settle 0 9 (Inr [car])])) = 1"
  by (simp add: eval_defs ingest_def zeroStats_def)

subsection \<open>Pausing\<close>

text \<open>
  C3 (pause while a call is in flight), evaluated on the code. \<^verbatim>\<open>togglePause\<close> only
  flips \<open>isPaused\<close>; neither \<^verbatim>\<open>detectLoop\<close> nor the processor reads it. The call
  in flight settles and its batch is published, the loop reschedules itself, and the
  next tick submits frame 1 while the page is still paused.
\<close>

theorem C3_paused_loop_submits:
  "isPaused (run ready [Start (Some 0), TogglePause, Settle 0 9 (Inr [car])])
   \<and> detections (run ready [Start (Some 0), TogglePause, Settle 0 9 (Inr [car])]) = [car]
   \<and> submitted (run ready [Start (Some 0), TogglePause, Settle 0 9 (Inr [car])]) = [0]
   \<and> isPaused (run ready [Start (Some 0), TogglePause, Settle 0 9 (Inr [car]), Tick 0 (Some 1)])
   \<and> submitted (run ready [Start (Some 0), TogglePause, Settle 0 9 (Inr [car]), Tick 0 (Some 1)])
       = [0, 1]
   \<and> loops (run ready [Start (Some 0), TogglePause, Settle 0 9 (Inr [car]), Tick 0 (Some 1)])
       = [Awaiting 1]"
  by (simp add: eval_defs)

subsection \<open>Starting\<close>

text \<open>
  C4 (start while running or paused), as the code has it. \<^verbatim>\<open>startProcessing\<close> looks
  at the detector and the video element only, never at \<open>isProcessing\<close> or
  \<open>isPaused\<close>. With both present it sets \<open>isProcessing\<close>, clears \<open>isPaused\<close> and
  \<open>error\<close>, installs a fresh running processor in place of the previous one and adds
  one more detect loop to those already there; without one of them it returns with the
  state unchanged and nothing reported.
\<close>

theorem C4_start_is_unguarded:
  "(detectorRef s \<and> videoRef s \<longrightarrow>
      isProcessing (startProcessing available s)
      \<and> \<not> isPaused (startProcessing available s)
      \<and> error (startProcessing available s) = None
      \<and> processorRef (startProcessing available s)
          = Some (vp_startProcessing (vp_setVideo vp_new))
      \<and> length (loops (startProcessing available s)) = Suc (length (loops s))
      \<and> take (length (loops s)) (loops (startProcessing available s)) = loops s)
   \<and> (\<not> (detectorRef s \<and> videoRef s) \<longrightarrow> startProcessing available s = s)"
  by (cases available)
     (simp_all add: startProcessing_def detectLoop_def detectLoop_reschedule_def setLoop_def
        getCurrentFrame_def isProcessingStopped_def vp_defs Let_def)

text \<open>Start on a paused page with one loop, and on the initial page, which has no
  detector yet.\<close>

theorem C4_witness:
  "isProcessing (run ready [Start (Some 0), TogglePause])
   \<and> isPaused (run ready [Start (Some 0), TogglePause])
   \<and> detectorRef (run ready [Start (Some 0), TogglePause])
   \<and> videoRef (run ready [Start (Some 0), TogglePause])
   \<and> isProcessing (startProcessing (Some 1) (run ready [Start (Some 0), TogglePause]))
   \<and> \<not> isPaused (startProcessing (Some 1) (run ready [Start (Some 0), TogglePause]))
   \<and> length (loops (startProcessing (Some 1) (run ready [Start (Some 0), TogglePause]))) = 2
   \<and> \<not> detectorRef initial
   \<and> startProcessing (Some 0) initial = initial"
  using C4_start_is_unguarded [of "run ready [Start (Some 0), TogglePause]" "Some 1"]
        C4_start_is_unguarded [of initial "Some 0"]
  by (simp add: eval_defs)

text \<open>
  C4 as stated fails: a second start on a running page reports no error and leaves two
  loops, each with a call in flight.
\<close>

theorem C4_counterexample:
  "isProcessing (run ready [Start (Some 0)])
   \<and> length (loops (run ready [Start (Some 0)])) = 1
   \<and> error (run ready [Start (Some 0), Start (Some 1)]) = None
   \<and> length (loops (run ready [Start (Some 0), Start (Some 1)])) = 2
   \<and> inflight (run ready [Start (Some 0), Start (Some 1)]) = 2"
  by (simp add: eval_defs inflight_def)

subsection \<open>A failing inference call\<close>

text \<open>
  C5 (the inference call raises), as the code has it. The rejection is caught in
  \<^verbatim>\<open>detectLoop\<close> and logged with \<^verbatim>\<open>console.error\<close>; \<^verbatim>\<open>updateDetections\<close> is not
  called, so nothing is published for that cycle: the detections shown, the stats and
  the processor stay as they were. The loop asks for its next animation frame unless
  the current processor is stopped.
\<close>

theorem C5_error_publishes_nothing:
  assumes "i < length (loops s)" and "awaiting (loops s ! i)"
  shows "detections (step s (Settle i now (Inl err))) = detections s
       \<and> stats (step s (Settle i now (Inl err))) = stats s
       \<and> processorRef (step s (Settle i now (Inl err))) = processorRef s
       \<and> console (step s (Settle i now (Inl err))) = console s @ [DetectionError err]
       \<and> loops (step s (Settle i now (Inl err)))
           = (loops s)[i := (case processorRef s of
                               None \<Rightarrow> Finished
                             | Some p \<Rightarrow> if vp_processing p then Scheduled else Finished)]"
  using assms
  by (cases "processorRef s")
     (simp_all add: detectLoop_settled_def detectLoop_reschedule_def setLoop_def
        isProcessingStopped_def)

text \<open>A batch is published, the next call fails.\<close>

theorem C5_witness:
  "awaiting (loops (run ready [Start (Some 0), Settle 0 9 (Inr [car]), Tick 0 (Some 1)]) ! 0)
   \<and> detections (run ready [Start (Some 0), Settle 0 9 (Inr [car]), Tick 0 (Some 1),
                            Settle 0 12 (Inl ''boom'')])
       = detections (run ready [Start (Some 0), Settle 0 9 (Inr [car]), Tick 0 (Some 1)])
   \<and> console (run ready [Start (Some 0), Settle 0 9 (Inr [car]), Tick 0 (Some 1),
                         Settle 0 12 (Inl ''boom'')]) = [DetectionError ''boom'']
   \<and> loops (run ready [Start (Some 0), Settle 0 9 (Inr [car]), Tick 0 (Some 1),
                       Settle 0 12 (Inl ''boom'')]) = [Scheduled]"
  using C5_error_publishes_nothing
    [of 0 "run ready [Start (Some 0), Settle 0 9 (Inr [car]), Tick 0 (Some 1)]" 12 "''boom''"]
  by (simp add: eval_defs)

text \<open>
  C5 as stated fails: after the failing cycle the page still shows the batch of the
  cycle before, not an empty batch.
\<close>

theorem C5_counterexample:
  "awaiting (loops (run ready [Start (Some 0), Settle 0 9 (Inr [car]), Tick 0 (Some 1)]) ! 0)
   \<and> detections (run ready [Start (Some 0), Settle 0 9 (Inr [car]), Tick 0 (Some 1),
                            Settle 0 12 (Inl ''boom'')]) = [car]
   \<and> [car] \<noteq> []"
  by (simp add: eval_defs)

subsection \<open>Publication\<close>

text \<open>
  C6 (a published batch replaces the previous one). The callback given to the
  processor sets \<open>detections\<close> to its argument, whatever was shown before; and when a
  call awaited by a loop settles with a batch while the processor runs, the detections
  shown afterwards are exactly that batch.
\<close>

theorem C6_publication_replaces:
  "detections (onDetectionsUpdate batch s) = batch
   \<and> (i < length (loops s) \<and> awaiting (loops s ! i)
        \<and> processorRef s = Some p \<and> vp_processing p
      \<longrightarrow> detections (step s (Settle i now (Inr batch))) = batch)"
  by (simp add: onDetectionsUpdate_def onStatsUpdate_def detectLoop_settled_def
        detectLoop_reschedule_def setLoop_def isProcessingStopped_def updateDetections_def)

text \<open>A batch of two detections is shown, then a batch of one replaces it.\<close>

theorem C6_witness:
  "detections (run ready [Start (Some 0), Settle 0 9 (Inr [car, car]), Tick 0 (Some 1)])
     = [car, car]
   \<and> awaiting (loops (run ready [Start (Some 0), Settle 0 9 (Inr [car, car]), Tick 0 (Some 1)]) ! 0)
   \<and> detections (step (run ready [Start (Some 0), Settle 0 9 (Inr [car, car]), Tick 0 (Some 1)])
                    (Settle 0 12 (Inr [car]))) = [car]"
  using C6_publication_replaces
    [of "[car]" "run ready [Start (Some 0), Settle 0 9 (Inr [car, car]), Tick 0 (Some 1)]" 0
        "the (processorRef (run ready [Start (Some 0), Settle 0 9 (Inr [car, car]), Tick 0 (Some 1)]))"
        12]
  by (simp add: eval_defs)

text \<open>
  C10 (stop keeps what was published). \<^verbatim>\<open>stopProcessing\<close> changes \<open>isProcessing\<close>,
  \<open>isPaused\<close> and the processing flag of the processor, and nothing else: the
  detections and stats shown, and the stats and batches held by the processor, are as
  before. \<^verbatim>\<open>handleReset\<close> and \<^verbatim>\<open>handleClearVideo\<close> are the handlers that empty the
  detections and zero the stats.
\<close>

theorem C10_stop_keeps_published:
  "detections (stopProcessing s) = detections s
   \<and> stats (stopProcessing s) = stats s
   \<and> map_option vp_stats (processorRef (stopProcessing s)) = map_option vp_stats (processorRef s)
   \<and> map_option vp_batches (processorRef (stopProcessing s))
       = map_option vp_batches (processorRef s)
   \<and> stopProcessing s
       = s\<lparr>isProcessing := False, isPaused := False,
            processorRef := map_option (\<lambda>p. p\<lparr>vp_processing := False\<rparr>) (processorRef s)\<rparr>
   \<and> detections (step s Stop) = detections s
   \<and> stats (step s Stop) = stats s
   \<and> detections (handleReset s) = [] \<and> stats (handleReset s) = zeroStats
   \<and> detections (handleClearVideo s) = [] \<and> stats (handleClearVideo s) = zeroStats"
  by (cases "processorRef s")
     (simp_all add: stopProcessing_def handleReset_def handleClearVideo_def
        vp_stopProcessing_def)

text \<open>Stop, and reset, after one detection has been published.\<close>

theorem C10_witness:
  "detections (run ready [Start (Some 0), Settle 0 9 (Inr [car])]) = [car]
   \<and> detections (stopProcessing (run ready [Start (Some 0), Settle 0 9 (Inr [car])])) = [car]
   \<and> totalDetections (stats (stopProcessing (run ready [Start (Some 0), Settle 0 9 (Inr [car])]))) = 1
   \<and> detections (handleReset (run ready [Start (Some 0), Settle 0 9 (Inr [car])])) = []"
  using C10_stop_keeps_published [of "run ready [Start (Some 0), Settle 0 9 (Inr [car])]"]
  by (simp add: eval_defs ingest_def zeroStats_def)

section \<open>Export\<close>






subsection \<open>What the processor holds\<close>

text \<open>The batch named by \<open>publication\<close> is the one the page shows afterwards, and an
  event that publishes nothing and is not a reset leaves the detections shown alone.\<close>

lemma publication_shown: "publication s e = Some batch \<Longrightarrow> detections (step s e) = batch"
proof (cases e)
  case (Settle i now r)
  assume "publication s e = Some batch"
  then show ?thesis
    unfolding Settle
    by (auto simp: detectLoop_settled_def detectLoop_reschedule_def setLoop_def
          onStatsUpdate_def onDetectionsUpdate_def updateDetections_def
          split: if_splits sum.splits option.splits)
qed simp_all

lemma no_publication_shown:
  "publication s e = None \<Longrightarrow> e \<noteq> Reset \<Longrightarrow> e \<noteq> ClearVideo \<Longrightarrow>
     detections (step s e) = detections s"
proof (cases e)
  case (Settle i now r)
  assume "publication s e = None"
  then show ?thesis
    unfolding Settle
    by (auto simp: detectLoop_settled_def detectLoop_reschedule_def setLoop_def
          onStatsUpdate_def onDetectionsUpdate_def updateDetections_def
          split: if_splits sum.splits option.splits)
next
  case (Start a)
  show ?thesis
    unfolding Start
    by (simp add: startProcessing_def detectLoop_def detectLoop_reschedule_def setLoop_def
          Let_def split: option.splits)
next
  case (Tick i a)
  show ?thesis
    unfolding Tick
    by (simp add: detectLoop_def detectLoop_reschedule_def setLoop_def split: option.splits)
qed (simp_all add: initDetector_def handleVideoSelect_def handleCameraStart_def
       handleCameraStop_def stopProcessing_def togglePause_def)








section \<open>The running mean\<close>

lemma ingest_total: "totalDetections (ingest st now b) = totalDetections st + length b"
  by (simp add: ingest_def Let_def)

lemma ingest_mass:
  "averageConfidence (ingest st now b) * real (totalDetections (ingest st now b))
     = averageConfidence st * real (totalDetections st) + sum_list (map confidence b)"
proof (cases "totalDetections st + length b = 0")
  case True
  then show ?thesis by (simp add: ingest_def Let_def)
next
  case False
  define a where "a = averageConfidence st"
  define t where "t = real (totalDetections st)"
  define k where "k = real (length b)"
  define S where "S = sum_list (map confidence b)"
  have nz: "t + k \<noteq> 0"
    using False unfolding t_def k_def by (metis of_nat_add of_nat_eq_0_iff)
  have avg: "averageConfidence (ingest st now b) = a + (S - a * k) / (t + k)"
    using False by (simp add: ingest_def Let_def a_def t_def k_def S_def)
  have tot: "real (totalDetections (ingest st now b)) = t + k"
    by (simp add: ingest_total t_def k_def)
  have "(a + (S - a * k) / (t + k)) * (t + k) = a * (t + k) + (S - a * k)"
    using nz by (simp add: distrib_right)
  also have "\<dots> = a * t + S"
    by (simp add: algebra_simps)
  finally show ?thesis
    by (simp add: avg tot a_def t_def S_def)
qed

lemma ingest_all_total:
  "totalDetections (ingest_all st bs) = totalDetections st + length (concat (map snd bs))"
  by (induction st bs rule: ingest_all.induct) (simp_all add: ingest_total)

lemma ingest_all_mass:
  "averageConfidence (ingest_all st bs) * real (totalDetections (ingest_all st bs))
     = averageConfidence st * real (totalDetections st)
       + sum_list (map confidence (concat (map snd bs)))"
proof (induction st bs rule: ingest_all.induct)
  case (1 st)
  show ?case by simp
next
  case (2 st now batch rest)
  show ?case
    using "2.IH" ingest_mass [of st now batch] by simp
qed

lemma ingest_empty_average: "averageConfidence (ingest st now []) = averageConfidence st"
  by (simp add: ingest_def Let_def)

lemma ingest_all_empty:
  "concat (map snd bs) = [] \<Longrightarrow> averageConfidence (ingest_all st bs) = averageConfidence st"
proof (induction st bs rule: ingest_all.induct)
  case (1 st)
  show ?case by simp
next
  case (2 st now batch rest)
  from "2.prems" have "batch = []" and "concat (map snd rest) = []" by simp_all
  with "2.IH" show ?case by (simp add: ingest_empty_average)
qed

text \<open>
  C8 (the average confidence is the mean). After a reset and any sequence of batches
  holding at least one detection, \<open>averageConfidence\<close> is the sum of all confidence
  values ingested divided by their number; when no detection has been ingested the
  total is zero, no division happens and the average is 0. Numbers are reals here, so
  the rounding of floating point is outside the statement.
\<close>

theorem C8_average_is_mean:
  "(concat (map snd bs) \<noteq> [] \<longrightarrow>
      averageConfidence (ingest_all (agg_reset st) bs)
        = sum_list (map confidence (concat (map snd bs))) / real (length (concat (map snd bs))))
   \<and> (concat (map snd bs) = [] \<longrightarrow> averageConfidence (ingest_all (agg_reset st) bs) = 0)"
proof (intro conjI impI)
  assume ne: "concat (map snd bs) \<noteq> []"
  let ?n = "length (concat (map snd bs))"
  have n: "totalDetections (ingest_all (agg_reset st) bs) = ?n"
    by (simp add: ingest_all_total agg_reset_def zeroStats_def)
  have "averageConfidence (ingest_all (agg_reset st) bs) * real ?n
          = sum_list (map confidence (concat (map snd bs)))"
    using ingest_all_mass [of "agg_reset st" bs] n
    by (simp add: agg_reset_def zeroStats_def)
  moreover have "real ?n \<noteq> 0" using ne by simp
  ultimately show "averageConfidence (ingest_all (agg_reset st) bs)
        = sum_list (map confidence (concat (map snd bs))) / real ?n"
    by (simp add: field_simps)
next
  assume "concat (map snd bs) = []"
  then show "averageConfidence (ingest_all (agg_reset st) bs) = 0"
    by (simp add: ingest_all_empty agg_reset_def zeroStats_def)
qed

text \<open>The end-to-end scenario of spec 8, and two empty batches.\<close>

theorem C8_witness:
  "concat (map snd [(1, [car]), (2, [car2, person])]) \<noteq> []
   \<and> averageConfidence (ingest_all (agg_reset zeroStats) [(1, [car]), (2, [car2, person])]) = 7/10
   \<and> averageConfidence (ingest_all (agg_reset zeroStats) [(1, []), (2, [])]) = 0"
  using C8_average_is_mean [of "[(1, [car]), (2, [car2, person])]" zeroStats]
        C8_average_is_mean [of "[(1, []), (2, [])]" zeroStats]
  by (simp add: car_def car2_def person_def)

section \<open>Coordinate mapping\<close>

text \<open>
  C9 (the full extent maps to the full display). For a model input size and a display
  resolution that are both positive, the detection \<open>(0, 0, modelWidth, modelHeight)\<close>
  is mapped to \<open>(0, 0, displayWidth, displayHeight)\<close>.
\<close>

theorem C9_full_extent:
  assumes "0 < mw" and "0 < mh" and "0 < dw" and "0 < dh"
  shows "mapToDisplay \<lparr>det_x = 0, det_y = 0, det_width = mw, det_height = mh,
                        confidence = c, cls = l\<rparr> (mw, mh) (dw, dh)
           = \<lparr>r_x = 0, r_y = 0, r_width = dw, r_height = dh\<rparr>"
  using assms by (simp add: mapToDisplay_def Let_def)

text \<open>A 640 by 640 model on a 1920 by 1080 display.\<close>

theorem C9_witness:
  "(0::real) < 640 \<and> (0::real) < 1920 \<and> (0::real) < 1080
   \<and> mapToDisplay \<lparr>det_x = 0, det_y = 0, det_width = 640, det_height = 640,
                    confidence = 9/10, cls = ''car''\<rparr> (640, 640) (1920, 1080)
       = \<lparr>r_x = 0, r_y = 0, r_width = 1920, r_height = 1080\<rparr>"
  using C9_full_extent [of 640 640 1920 1080 "9/10" "''car''"]
  by simp

end
